theory Spec2Isabelle
  imports Complex_Main "HOL-Library.Sublist" "HOL-Library.Char_ord" "HOL-Library.List_Lexorder"
    "HOL-Library.Product_Lexorder"
begin

section \<open>Python values\<close>

text \<open>
  The OpenAPI document is the result of \<^verbatim>\<open>json.load\<close>: nested dicts, lists, strings,
  numbers, booleans and \<^verbatim>\<open>None\<close>. A dict keeps its insertion order, so it is an
  association list; \<^verbatim>\<open>json.load\<close> produces dicts whose keys are distinct. Strings are
  lists of bytes; the case conversions and the character classes below are the ASCII ones.
\<close>

datatype json =
    JNull
  | JBool bool
  | JInt int
  | JFloat real
  | JStr string
  | JArr "json list"
  | JObj "(string \<times> json) list"

type_synonym dict = "(string \<times> json) list"

datatype py_error = AttributeError | TypeError

definition bind :: "py_error + 'a \<Rightarrow> ('a \<Rightarrow> py_error + 'b) \<Rightarrow> py_error + 'b" where
  "bind m f = (case m of Inl e \<Rightarrow> Inl e | Inr x \<Rightarrow> f x)"

text \<open>Truth value of a Python object, as \<^verbatim>\<open>not x\<close>, \<^verbatim>\<open>x or y\<close> and \<^verbatim>\<open>if x\<close> test it.\<close>

fun truthy :: "json \<Rightarrow> bool" where
  "truthy JNull = False"
| "truthy (JBool b) = b"
| "truthy (JInt i) = (i \<noteq> 0)"
| "truthy (JFloat r) = (r \<noteq> 0)"
| "truthy (JStr s) = (s \<noteq> [])"
| "truthy (JArr xs) = (xs \<noteq> [])"
| "truthy (JObj kvs) = (kvs \<noteq> [])"

text \<open>\<^verbatim>\<open>x or y\<close>\<close>

definition py_or :: "json \<Rightarrow> json \<Rightarrow> json" where
  "py_or x y = (if truthy x then x else y)"

text \<open>\<^verbatim>\<open>d.get(k)\<close> and \<^verbatim>\<open>d.get(k, default)\<close>\<close>

definition get_default :: "dict \<Rightarrow> string \<Rightarrow> json \<Rightarrow> json" where
  "get_default d k dflt = (case map_of d k of None \<Rightarrow> dflt | Some v \<Rightarrow> v)"

definition get :: "dict \<Rightarrow> string \<Rightarrow> json" where
  "get d k = get_default d k JNull"

text \<open>
  Attribute access \<^verbatim>\<open>x.get\<close> or \<^verbatim>\<open>x.items\<close> on a value: only a dict has these
  attributes, any other object raises \<^verbatim>\<open>AttributeError\<close>.
\<close>

fun as_dict :: "json \<Rightarrow> py_error + dict" where
  "as_dict (JObj d) = Inr d"
| "as_dict _ = Inl AttributeError"

fun is_dict :: "json \<Rightarrow> bool" where
  "is_dict (JObj d) = True"
| "is_dict _ = False"

text \<open>\<^verbatim>\<open>d[k] = v\<close>: an existing key keeps its position, a new key goes last.\<close>

fun dict_set :: "dict \<Rightarrow> string \<Rightarrow> json \<Rightarrow> dict" where
  "dict_set [] k v = [(k, v)]"
| "dict_set ((k', v') # d) k v = (if k' = k then (k, v) # d else (k', v') # dict_set d k v)"

section \<open>Strings\<close>

text \<open>
  \<^verbatim>\<open>s.lower()\<close>, \<^verbatim>\<open>s.upper()\<close> and the whitespace of \<^verbatim>\<open>s.strip()\<close>, on ASCII text: the
  letters A to Z change case and every other character is kept; whitespace is the ASCII
  whitespace of Python. Characters outside ASCII are not modelled.
\<close>

definition lower_char :: "char \<Rightarrow> char" where
  "lower_char c =
     (case map_of (zip ''ABCDEFGHIJKLMNOPQRSTUVWXYZ'' ''abcdefghijklmnopqrstuvwxyz'') c of
        None \<Rightarrow> c | Some l \<Rightarrow> l)"

definition upper_char :: "char \<Rightarrow> char" where
  "upper_char c =
     (case map_of (zip ''abcdefghijklmnopqrstuvwxyz'' ''ABCDEFGHIJKLMNOPQRSTUVWXYZ'') c of
        None \<Rightarrow> c | Some u \<Rightarrow> u)"

definition lower :: "string \<Rightarrow> string" where
  "lower s = map lower_char s"

definition upper :: "string \<Rightarrow> string" where
  "upper s = map upper_char s"

definition is_space :: "char \<Rightarrow> bool" where
  "is_space c = (c \<in> set [CHR '' '', CHR 0x09, CHR 0x0A, CHR 0x0B, CHR 0x0C, CHR 0x0D,
                           CHR 0x1C, CHR 0x1D, CHR 0x1E, CHR 0x1F])"

text \<open>\<^verbatim>\<open>s.strip()\<close>\<close>

definition strip :: "string \<Rightarrow> string" where
  "strip s = rev (dropWhile is_space (rev (dropWhile is_space s)))"

text \<open>\<^verbatim>\<open>s.rstrip("/")\<close>\<close>

definition rstrip_slash :: "string \<Rightarrow> string" where
  "rstrip_slash s = rev (dropWhile (\<lambda>c. c = CHR ''/'') (rev s))"

text \<open>\<^verbatim>\<open>s.split(sep)[-1]\<close> for a one-character separator: what follows the last separator.\<close>

definition last_segment :: "char \<Rightarrow> string \<Rightarrow> string" where
  "last_segment sep s = rev (takeWhile (\<lambda>c. c \<noteq> sep) (rev s))"

text \<open>
  The maximal runs of characters satisfying \<open>P\<close>, in order: what \<^verbatim>\<open>re.split\<close> on the
  complement class leaves once the empty pieces are dropped, and what \<^verbatim>\<open>str.split()\<close>
  returns when \<open>P\<close> is "not whitespace". \<open>cur\<close> is the run being read.
\<close>

fun runs :: "(char \<Rightarrow> bool) \<Rightarrow> string \<Rightarrow> string \<Rightarrow> string list" where
  "runs P cur [] = (if cur = [] then [] else [cur])"
| "runs P cur (c # cs) =
     (if P c then runs P (cur @ [c]) cs
      else (if cur = [] then [] else [cur]) @ runs P [] cs)"

text \<open>\<^verbatim>\<open>t in s\<close> for strings: \<open>t\<close> occurs in \<open>s\<close> as a contiguous piece.\<close>

fun contains :: "string \<Rightarrow> string \<Rightarrow> bool" where
  "contains [] t = (t = [])"
| "contains (c # s) t = (prefix t (c # s) \<or> contains s t)"

section \<open>parser.py\<close>

definition is_token_char :: "char \<Rightarrow> bool" where
  "is_token_char c = (c \<in> set ''abcdefghijklmnopqrstuvwxyz0123456789'')"

text \<open>
  \<^verbatim>\<open>_tokens(text)\<close>. The argument is whatever the caller passes: a falsy value gives the
  empty list, a string is lower-cased and split, and any other truthy value has no
  \<^verbatim>\<open>lower\<close> attribute.
\<close>

definition tokens_str :: "string \<Rightarrow> string list" where
  "tokens_str text = runs is_token_char [] (lower text)"

definition tokens :: "json \<Rightarrow> py_error + string list" where
  "tokens text =
     (if \<not> truthy text then Inr []
      else (case text of JStr s \<Rightarrow> Inr (tokens_str s) | _ \<Rightarrow> Inl AttributeError))"

definition schema_prefix :: string where
  "schema_prefix = ''#/components/schemas/''"

text \<open>
  \<^verbatim>\<open>isinstance(ref, str) and ref.startswith("#/components/schemas/")\<close>, and then the name
  \<^verbatim>\<open>ref.split("/")[-1]\<close>.
\<close>

definition ref_name :: "json \<Rightarrow> string option" where
  "ref_name ref =
     (case ref of
        JStr r \<Rightarrow> (if prefix schema_prefix r then Some (last_segment CHR ''/'' r) else None)
      | _ \<Rightarrow> None)"

definition opt_list :: "'a option \<Rightarrow> 'a list" where
  "opt_list x = (case x of None \<Rightarrow> [] | Some v \<Rightarrow> [v])"

text \<open>
  The loop over \<^verbatim>\<open>content.items()\<close> in \<^verbatim>\<open>score_endpoint\<close>: a media type that is
  not a dict counts as having the empty schema; a schema that is not a dict raises.
\<close>

fun score_body_names :: "dict \<Rightarrow> py_error + string list" where
  "score_body_names [] = Inr []"
| "score_body_names ((mime, c) # content) =
     bind (as_dict (case c of JObj cd \<Rightarrow> get_default cd ''schema'' (JObj []) | _ \<Rightarrow> JObj []))
       (\<lambda>sch. bind (score_body_names content)
         (\<lambda>names. Inr (map lower (opt_list (ref_name (get sch ''$ref''))) @ names)))"

text \<open>
  \<^verbatim>\<open>for p in X\<close>: a list yields its elements, a dict its keys, a string its characters;
  a number, a boolean or \<^verbatim>\<open>None\<close> is not iterable.
\<close>

fun iterate :: "json \<Rightarrow> py_error + json list" where
  "iterate (JArr xs) = Inr xs"
| "iterate (JObj d) = Inr (map (\<lambda>kv. JStr (fst kv)) d)"
| "iterate (JStr s) = Inr (map (\<lambda>c. JStr [c]) s)"
| "iterate _ = Inl TypeError"

text \<open>
  The loop over the parameters, in both functions of the module:
  \<^verbatim>\<open>psch = p.get("schema", {}) or {}\<close>, then the reference of \<open>psch\<close>.
\<close>

fun param_names :: "json list \<Rightarrow> py_error + string list" where
  "param_names [] = Inr []"
| "param_names (p # ps) =
     bind (as_dict p)
       (\<lambda>pd. bind (as_dict (py_or (get_default pd ''schema'' (JObj [])) (JObj [])))
         (\<lambda>psch. bind (param_names ps)
           (\<lambda>names. Inr (opt_list (ref_name (get psch ''$ref'')) @ names))))"

text \<open>What one query token adds to the score: the four tests of the loop body.\<close>

definition token_score ::
  "string \<Rightarrow> string list \<Rightarrow> string list \<Rightarrow> string list \<Rightarrow> string list \<Rightarrow> string \<Rightarrow> real" where
  "token_score path_low op_tokens summary_tokens desc_tokens schema_names t =
     (if contains path_low t then 3 else 0)
   + (if t \<in> set op_tokens \<or> t \<in> set summary_tokens then 2 else 0)
   + (if t \<in> set desc_tokens then 1 else 0)
   + (if t \<in> set schema_names then 1 else 0)"

text \<open>The loop \<^verbatim>\<open>for t in query_tokens\<close>, with the running score.\<close>

fun score_loop ::
  "string \<Rightarrow> string list \<Rightarrow> string list \<Rightarrow> string list \<Rightarrow> string list \<Rightarrow> real \<Rightarrow> string list \<Rightarrow> real" where
  "score_loop path_low op_tokens summary_tokens desc_tokens schema_names score [] = score"
| "score_loop path_low op_tokens summary_tokens desc_tokens schema_names score (t # ts) =
     score_loop path_low op_tokens summary_tokens desc_tokens schema_names
       (score + token_score path_low op_tokens summary_tokens desc_tokens schema_names t) ts"

text \<open>
  \<^verbatim>\<open>score_endpoint(query_tokens, path, method, info, components_schemas)\<close>. The floats the
  loop adds are small whole numbers, which floating-point addition represents exactly,
  so the score is a real.
\<close>

definition score_endpoint :: "string list \<Rightarrow> string \<Rightarrow> string \<Rightarrow> dict \<Rightarrow> json \<Rightarrow> py_error + real" where
  "score_endpoint query_tokens path method info components_schemas =
     (let path_low = lower path;
          summary = py_or (py_or (get info ''summary'') (JStr [])) (JStr []);
          description = py_or (py_or (get info ''description'') (JStr [])) (JStr []);
          operationId = py_or (py_or (get info ''operationId'') (JStr [])) (JStr [])
      in bind (tokens summary) (\<lambda>summary_tokens.
         bind (tokens description) (\<lambda>desc_tokens.
         bind (tokens operationId) (\<lambda>op_tokens.
         bind (case get_default info ''requestBody'' (JObj []) of
                 JObj rb \<Rightarrow> as_dict (get_default rb ''content'' (JObj []))
               | _ \<Rightarrow> Inr []) (\<lambda>content.
         bind (score_body_names content) (\<lambda>body_names.
         bind (iterate (py_or (get_default info ''parameters'' (JArr [])) (JArr []))) (\<lambda>params.
         bind (param_names params) (\<lambda>pnames.
         Inr (score_loop path_low op_tokens summary_tokens desc_tokens
                (body_names @ map lower pnames) 0 query_tokens)))))))))"

record candidate =
  route :: string
  method_name :: string
  summary :: json
  operationId :: json
  schema_refs :: "string list"
  score :: real

text \<open>
  The loop over \<^verbatim>\<open>content.items()\<close> in \<^verbatim>\<open>find_candidates\<close>: here a media type
  that is not a dict is skipped, and a falsy schema counts as the empty one.
\<close>

fun cand_body_refs :: "dict \<Rightarrow> py_error + string list" where
  "cand_body_refs [] = Inr []"
| "cand_body_refs ((mime, c) # content) =
     (case c of
        JObj cd \<Rightarrow>
          bind (as_dict (py_or (get_default cd ''schema'' (JObj [])) (JObj [])))
            (\<lambda>sch. bind (cand_body_refs content)
              (\<lambda>refs. Inr (opt_list (ref_name (get sch ''$ref'')) @ refs)))
      | _ \<Rightarrow> cand_body_refs content)"

text \<open>\<^verbatim>\<open>list(dict.fromkeys(xs))\<close>: the first occurrence of each element, in order.\<close>

fun unique :: "'a list \<Rightarrow> 'a list" where
  "unique [] = []"
| "unique (x # xs) = x # unique (filter (\<lambda>y. y \<noteq> x) xs)"

text \<open>The body of the inner loop for one \<open>(method, info)\<close> of a route.\<close>

definition make_candidate :: "string list \<Rightarrow> json \<Rightarrow> string \<Rightarrow> string \<Rightarrow> dict \<Rightarrow> py_error + candidate" where
  "make_candidate toks components_schemas rt m info =
     bind (score_endpoint toks rt m info components_schemas) (\<lambda>sc.
     bind (case py_or (get_default info ''requestBody'' (JObj [])) (JObj []) of
             JObj rb \<Rightarrow> as_dict (get_default rb ''content'' (JObj []))
           | _ \<Rightarrow> Inr []) (\<lambda>content.
     bind (cand_body_refs content) (\<lambda>body_refs.
     bind (iterate (py_or (get_default info ''parameters'' (JArr [])) (JArr []))) (\<lambda>params.
     bind (param_names params) (\<lambda>param_refs.
     Inr \<lparr> route = rt, method_name = m, summary = get info ''summary'',
           operationId = get info ''operationId'',
           schema_refs = unique (body_refs @ param_refs), score = sc \<rparr>)))))"

text \<open>The inner loop \<^verbatim>\<open>for method, info in (methods or {}).items()\<close>.\<close>

fun route_candidates :: "string list \<Rightarrow> json \<Rightarrow> string \<Rightarrow> dict \<Rightarrow> py_error + candidate list" where
  "route_candidates toks cs rt [] = Inr []"
| "route_candidates toks cs rt ((m, info) # methods) =
     (case info of
        JObj d \<Rightarrow>
          bind (make_candidate toks cs rt m d)
            (\<lambda>c. bind (route_candidates toks cs rt methods) (\<lambda>rest. Inr (c # rest)))
      | _ \<Rightarrow> route_candidates toks cs rt methods)"

text \<open>The outer loop \<^verbatim>\<open>for route, methods in paths.items()\<close>.\<close>

fun all_candidates :: "string list \<Rightarrow> json \<Rightarrow> dict \<Rightarrow> py_error + candidate list" where
  "all_candidates toks cs [] = Inr []"
| "all_candidates toks cs ((rt, methods) # paths) =
     bind (as_dict (py_or methods (JObj [])))
       (\<lambda>ms. bind (route_candidates toks cs rt ms)
         (\<lambda>here. bind (all_candidates toks cs paths) (\<lambda>rest. Inr (here @ rest))))"

text \<open>
  The paths mapping of a spec, \<^verbatim>\<open>spec.get("paths", {}) or {}\<close>, as a dict: both
  modules go on to call \<^verbatim>\<open>paths.items()\<close> or \<^verbatim>\<open>paths.get\<close> on it.
\<close>

definition spec_paths :: "dict \<Rightarrow> py_error + dict" where
  "spec_paths spec = as_dict (py_or (get_default spec ''paths'' (JObj [])) (JObj []))"

text \<open>\<^verbatim>\<open>xs[:k]\<close>: a negative \<open>k\<close> counts from the end.\<close>

definition slice_to :: "int \<Rightarrow> 'a list \<Rightarrow> 'a list" where
  "slice_to k xs = (if 0 \<le> k then take (nat k) xs else take (nat (int (length xs) + k)) xs)"

definition sort_key_of :: "candidate \<Rightarrow> real \<times> string \<times> string" where
  "sort_key_of x = (- score x, route x, method_name x)"

text \<open>\<^verbatim>\<open>find_candidates(spec, query, top_k)\<close>. Python's sort is stable, as \<open>sort_key\<close> is.\<close>

definition find_candidates :: "dict \<Rightarrow> string \<Rightarrow> int \<Rightarrow> py_error + candidate list" where
  "find_candidates spec query top_k =
     (let toks = tokens_str query in
      bind (as_dict (py_or (get spec ''components'') (JObj []))) (\<lambda>components.
        let components_schemas = py_or (get components ''schemas'') (JObj []) in
        bind (spec_paths spec) (\<lambda>paths.
        bind (all_candidates toks components_schemas paths) (\<lambda>candidates.
        Inr (slice_to top_k (sort_key sort_key_of candidates))))))"

subsection \<open>Well-formed documents\<close>

text \<open>
  The shape of an OpenAPI document, as far as these functions read it. A text field of
  an operation (summary, description, operationId) is a string when it is present and
  not empty or null.
\<close>

fun is_str :: "json \<Rightarrow> bool" where
  "is_str (JStr s) = True"
| "is_str _ = False"

definition text_field :: "dict \<Rightarrow> string \<Rightarrow> bool" where
  "text_field info k = (truthy (get info k) \<longrightarrow> is_str (get info k))"

text \<open>A media type object has a schema object, or no schema.\<close>

definition wf_media :: "json \<Rightarrow> bool" where
  "wf_media c = (case c of JObj cd \<Rightarrow> is_dict (get_default cd ''schema'' (JObj [])) | _ \<Rightarrow> True)"

text \<open>A request body object has a content mapping of media type objects, or no content.\<close>

definition wf_request_body :: "json \<Rightarrow> bool" where
  "wf_request_body rb =
     (case rb of
        JObj d \<Rightarrow>
          (case get_default d ''content'' (JObj []) of
             JObj content \<Rightarrow> list_all wf_media (map snd content)
           | _ \<Rightarrow> False)
      | _ \<Rightarrow> True)"

text \<open>A parameter is an object, with a schema object or without a schema.\<close>

definition wf_param :: "json \<Rightarrow> bool" where
  "wf_param p =
     (case p of
        JObj pd \<Rightarrow> is_dict (py_or (get_default pd ''schema'' (JObj [])) (JObj []))
      | _ \<Rightarrow> False)"

text \<open>The parameters of an operation are a list of parameters, or missing or empty.\<close>

definition wf_parameters :: "json \<Rightarrow> bool" where
  "wf_parameters ps = (case py_or ps (JArr []) of JArr xs \<Rightarrow> list_all wf_param xs | _ \<Rightarrow> False)"

definition wf_operation :: "dict \<Rightarrow> bool" where
  "wf_operation info =
     (text_field info ''summary'' \<and> text_field info ''description''
      \<and> text_field info ''operationId''
      \<and> wf_request_body (get_default info ''requestBody'' (JObj []))
      \<and> wf_parameters (get_default info ''parameters'' (JArr [])))"

text \<open>
  A path item is a mapping (or empty or null); each of its values that is an object is an
  operation. Values that are not objects (a path-level parameter list, a summary) are
  not operations.
\<close>

definition wf_entry :: "json \<Rightarrow> bool" where
  "wf_entry info = (case info of JObj d \<Rightarrow> wf_operation d | _ \<Rightarrow> True)"

definition wf_path_item :: "json \<Rightarrow> bool" where
  "wf_path_item methods =
     (case py_or methods (JObj []) of JObj ms \<Rightarrow> list_all wf_entry (map snd ms) | _ \<Rightarrow> False)"

text \<open>A spec has a paths mapping of path items, and a components object or none.\<close>

definition wf_spec :: "dict \<Rightarrow> bool" where
  "wf_spec spec =
     (is_dict (py_or (get spec ''components'') (JObj []))
      \<and> (case spec_paths spec of
            Inr paths \<Rightarrow> list_all wf_path_item (map snd paths)
          | Inl e \<Rightarrow> False))"

text \<open>The operations of a spec: the pairs of a path and a key of its item whose value is an object.\<close>

definition path_operations :: "string \<Rightarrow> json \<Rightarrow> (string \<times> string) list" where
  "path_operations rt methods =
     (case py_or methods (JObj []) of
        JObj ms \<Rightarrow> map (\<lambda>kv. (rt, fst kv)) (filter (\<lambda>kv. is_dict (snd kv)) ms)
      | _ \<Rightarrow> [])"

definition operations :: "dict \<Rightarrow> (string \<times> string) list" where
  "operations spec =
     (case spec_paths spec of
        Inr paths \<Rightarrow> concat (map (\<lambda>kv. path_operations (fst kv) (snd kv)) paths)
      | Inl e \<Rightarrow> [])"

section \<open>llm_wrapper.py\<close>

text \<open>\<^verbatim>\<open>str(i)\<close> for the index of a candidate in the prompt.\<close>

fun show_nat :: "nat \<Rightarrow> string" where
  "show_nat n =
     (if n < 10 then [''0123456789'' ! n]
      else show_nat (n div 10) @ [''0123456789'' ! (n mod 10)])"

text \<open>
  \<^verbatim>\<open>c.get('summary') or ''\<close> inside the f-string. A candidate's summary is a string or
  \<^verbatim>\<open>None\<close>; the text that Python formats for a truthy summary of another type is not
  modelled, and is the empty string here. The prompt reaches the result of
  \<^verbatim>\<open>choose\<close> only through the backend's answer.
\<close>

definition summary_text :: "candidate \<Rightarrow> string" where
  "summary_text c = (case py_or (summary c) (JStr []) of JStr s \<Rightarrow> s | _ \<Rightarrow> [])"

text \<open>The loop \<^verbatim>\<open>for i, c in enumerate(candidates, start=1)\<close> of \<^verbatim>\<open>_format_prompt\<close>.\<close>

fun prompt_lines :: "nat \<Rightarrow> candidate list \<Rightarrow> string" where
  "prompt_lines i [] = []"
| "prompt_lines i (c # cs) =
     show_nat i @ ''. route='' @ route c @ '' method='' @ upper (method_name c)
       @ '' summary='' @ summary_text c @ ''\<newline>'' @ prompt_lines (Suc i) cs"

definition format_prompt :: "string \<Rightarrow> candidate list \<Rightarrow> string" where
  "format_prompt question candidates =
     ''You are given a user question and a list of candidate API endpoints.\<newline>''
     @ ''User question:\<newline>'' @ strip question @ ''\<newline>\<newline>''
     @ ''Candidates:\<newline>''
     @ prompt_lines 1 candidates
     @ ''\<newline>Choose the single candidate that best matches the user's intent.\<newline>''
     @ ''Reply with only: <route> <method>\<newline>''
     @ ''If none match, reply: NONE\<newline>''"

text \<open>
  What the HTTP POST to the model backend comes to. \<open>Failure\<close> is every way the body of
  the \<^verbatim>\<open>try\<close> in \<^verbatim>\<open>_call_chat\<close> raises: no connection, a timeout, a status that
  is not 2xx, a body that is not the expected JSON. \<open>Reply content response\<close> is a decoded
  answer, with the text at \<^verbatim>\<open>message.content\<close> and at \<^verbatim>\<open>response\<close>; a missing
  field is the empty string, as the defaults of the two \<^verbatim>\<open>get\<close> calls make it.
\<close>

datatype backend_reply = Failure | Reply string string

text \<open>\<^verbatim>\<open>_call_chat(prompt)\<close>: the assistant's text, the empty string on failure.\<close>

definition call_chat :: "(string \<Rightarrow> backend_reply) \<Rightarrow> string \<Rightarrow> string" where
  "call_chat post prompt =
     (case post prompt of
        Failure \<Rightarrow> []
      | Reply content response \<Rightarrow>
          strip (if content \<noteq> [] then content else if response \<noteq> [] then response else []))"

datatype choice = NoChoice | Chosen string string

definition VALID_METHODS :: "string list" where
  "VALID_METHODS = [''get'', ''post'', ''put'', ''delete'', ''patch'', ''options'', ''head'']"

text \<open>
  The method token of the answer: lower-cased and stripped, cut after the last \<open>=\<close> when
  there is one, and reduced to its lower-case letters.
\<close>

definition normalize_method :: "string \<Rightarrow> string" where
  "normalize_method part =
     (let raw_method = strip (lower part);
          raw_method = (if CHR ''='' \<in> set raw_method then last_segment CHR ''='' raw_method
                        else raw_method)
      in filter (\<lambda>c. c \<in> set ''abcdefghijklmnopqrstuvwxyz'') raw_method)"

text \<open>The loop \<^verbatim>\<open>for c in candidates\<close> that confirms the answer.\<close>

fun confirm :: "string \<Rightarrow> string \<Rightarrow> candidate list \<Rightarrow> choice option" where
  "confirm rt m [] = None"
| "confirm rt m (c # cs) =
     (if route c = rt \<and> lower (method_name c) = m then Some (Chosen rt m) else confirm rt m cs)"

text \<open>
  The part of the \<^verbatim>\<open>try\<close> block from \<^verbatim>\<open>parts = text.strip().split()\<close> to the end
  of the \<^verbatim>\<open>for\<close> loop: \<open>Some\<close> when it returns a choice, \<open>None\<close> when control
  falls through to the fallback below it.
\<close>

definition parse_answer :: "string \<Rightarrow> candidate list \<Rightarrow> choice option" where
  "parse_answer text candidates =
     (case runs (\<lambda>c. \<not> is_space c) [] (strip text) of
        p0 # p1 # rest \<Rightarrow>
          (let rt = strip p0; m = normalize_method p1
           in if m \<notin> set VALID_METHODS then None else confirm rt m candidates)
      | _ \<Rightarrow> None)"

text \<open>
  \<^verbatim>\<open>max(candidates, key=lambda c: c.get("score", 0.0))\<close> on a non-empty list
  \<open>c # cs\<close>: the running maximum is replaced only by a strictly greater score, so the
  first of several maxima is returned. A candidate without a score counts as one of
  score \<open>0\<close>.
\<close>

fun max_score :: "candidate \<Rightarrow> candidate list \<Rightarrow> candidate" where
  "max_score best [] = best"
| "max_score best (c # cs) = max_score (if score best < score c then c else best) cs"

text \<open>
  \<^verbatim>\<open>LLMChooser.choose(question, candidates)\<close>, over the call it makes for the answer:
  \<open>chat prompt\<close> is \<open>Inr text\<close> when the call returns \<open>text\<close> and \<open>Inl e\<close> when it
  raises inside the \<^verbatim>\<open>try\<close>, which is the \<^verbatim>\<open>except\<close> branch.
\<close>

fun choose_with :: "(string \<Rightarrow> py_error + string) \<Rightarrow> string \<Rightarrow> candidate list \<Rightarrow> choice" where
  "choose_with chat question [] = NoChoice"
| "choose_with chat question (c # cs) =
     (case chat (format_prompt question (c # cs)) of
        Inr text \<Rightarrow>
          if text = [] then NoChoice
          else if prefix ''NONE'' (upper text) then NoChoice
          else (case parse_answer text (c # cs) of
                  Some ch \<Rightarrow> ch
                | None \<Rightarrow> (let best = max_score c cs in Chosen (route best) (method_name best)))
      | Inl e \<Rightarrow>
          (let best = max_score c cs
           in if score best \<le> 0 then NoChoice else Chosen (route best) (method_name best)))"

text \<open>The method as the module runs it: the call is \<^verbatim>\<open>_call_chat\<close>, which never raises.\<close>

definition LLMChooser_choose :: "(string \<Rightarrow> backend_reply) \<Rightarrow> string \<Rightarrow> candidate list \<Rightarrow> choice" where
  "LLMChooser_choose post question candidates =
     choose_with (\<lambda>prompt. Inr (call_chat post prompt)) question candidates"

section \<open>resolver.py\<close>

text \<open>The loop \<^verbatim>\<open>for p in paths.keys()\<close>: the first key equal to the route up to trailing slashes.\<close>

fun slash_match :: "string \<Rightarrow> string list \<Rightarrow> string option" where
  "slash_match rt [] = None"
| "slash_match rt (p # ps) =
     (if rstrip_slash p = rstrip_slash rt then Some p else slash_match rt ps)"

text \<open>\<^verbatim>\<open>_find_operation(spec, route, method)\<close>; \<open>JNull\<close> is \<^verbatim>\<open>None\<close>.\<close>

definition find_operation :: "dict \<Rightarrow> string \<Rightarrow> string \<Rightarrow> py_error + json" where
  "find_operation spec rt m =
     bind (spec_paths spec) (\<lambda>paths.
       let entry = get paths rt;
           entry = (if \<not> truthy entry
                    then (case slash_match rt (map fst paths) of
                            Some p \<Rightarrow> get paths p
                          | None \<Rightarrow> entry)
                    else entry)
       in if \<not> truthy entry then Inr JNull
          else bind (as_dict entry) (\<lambda>e. Inr (get e (lower m))))"

text \<open>\<^verbatim>\<open>_resolve_schema_ref(spec, ref)\<close>\<close>

definition resolve_schema_ref :: "dict \<Rightarrow> json \<Rightarrow> py_error + json" where
  "resolve_schema_ref spec ref =
     (case ref_name ref of
        None \<Rightarrow> Inr JNull
      | Some name \<Rightarrow>
          bind (as_dict (py_or (get spec ''components'') (JObj []))) (\<lambda>components.
          bind (as_dict (py_or (get components ''schemas'') (JObj []))) (\<lambda>schemas.
          Inr (get schemas name))))"

text \<open>
  The media types of an operation, as the three renderers and \<^verbatim>\<open>_collect_schema_refs\<close>
  reach them: \<^verbatim>\<open>rb = op.get("requestBody") or {}\<close>,
  \<^verbatim>\<open>content = rb.get("content") or {}\<close>, and then
  \<^verbatim>\<open>content.items() if isinstance(content, dict) else []\<close>.
\<close>

definition body_content :: "dict \<Rightarrow> py_error + dict" where
  "body_content opd =
     bind (as_dict (py_or (get opd ''requestBody'') (JObj []))) (\<lambda>rb.
       Inr (case py_or (get rb ''content'') (JObj []) of JObj content \<Rightarrow> content | _ \<Rightarrow> []))"

text \<open>\<^verbatim>\<open>sch = c.get("schema") or {}\<close>, as a dict: the next line calls \<^verbatim>\<open>sch.get\<close>.\<close>

definition schema_of :: "json \<Rightarrow> py_error + dict" where
  "schema_of c = bind (as_dict c) (\<lambda>cd. as_dict (py_or (get cd ''schema'') (JObj [])))"

definition truthy_list :: "json \<Rightarrow> json list" where
  "truthy_list r = (if truthy r then [r] else [])"

text \<open>The two loops of \<^verbatim>\<open>_collect_schema_refs\<close>.\<close>

fun collect_refs :: "json list \<Rightarrow> py_error + json list" where
  "collect_refs [] = Inr []"
| "collect_refs (c # cs) =
     bind (schema_of c) (\<lambda>sch.
     bind (collect_refs cs) (\<lambda>refs. Inr (truthy_list (get sch ''$ref'') @ refs)))"

definition collect_schema_refs :: "dict \<Rightarrow> py_error + json list" where
  "collect_schema_refs opd =
     bind (body_content opd) (\<lambda>content.
     bind (collect_refs (map snd content)) (\<lambda>body_refs.
     bind (iterate (py_or (get opd ''parameters'') (JArr []))) (\<lambda>params.
     bind (collect_refs params) (\<lambda>param_refs.
     Inr (body_refs @ param_refs)))))"

definition not_found :: json where
  "not_found = JObj [(''error'', JStr ''operation not found'')]"

text \<open>\<^verbatim>\<open>render_summary(spec, route, method)\<close>\<close>

definition render_summary :: "dict \<Rightarrow> string \<Rightarrow> string \<Rightarrow> py_error + json" where
  "render_summary spec rt m =
     bind (find_operation spec rt m) (\<lambda>op.
       if \<not> truthy op then Inr not_found
       else bind (as_dict op) (\<lambda>opd.
            bind (collect_schema_refs opd) (\<lambda>refs.
            Inr (JObj [(''route'', JStr rt), (''method'', JStr (lower m)),
                       (''summary'', get opd ''summary''),
                       (''description'', get opd ''description''),
                       (''operationId'', get opd ''operationId''),
                       (''schema_refs'', JArr refs)]))))"




text \<open>
  \<^verbatim>\<open>sample_from_schema(schema)\<close>, with the loop over \<^verbatim>\<open>props.items()\<close> that fills
  \<open>out\<close>. A document read from JSON is a finite tree, so the recursion is well-founded.
\<close>

function sample_from_schema :: "json \<Rightarrow> py_error + json"
  and sample_props :: "dict \<Rightarrow> dict \<Rightarrow> py_error + dict" where
  "sample_from_schema schema =
     (case schema of
        JObj d \<Rightarrow>
          (let t = get d ''type'' in
           if t = JStr ''object'' \<or> (\<not> truthy t \<and> ''properties'' \<in> fst ` set d) then
             (case py_or (get_default d ''properties'' (JObj [])) (JObj []) of
                JObj props \<Rightarrow>
                  (case sample_props props [] of
                     Inl e \<Rightarrow> Inl e
                   | Inr out \<Rightarrow> Inr (JObj out))
              | _ \<Rightarrow> Inl AttributeError)
           else if t = JStr ''array'' then
             (case sample_from_schema (get_default d ''items'' (JObj [])) of
                Inl e \<Rightarrow> Inl e
              | Inr s \<Rightarrow> Inr (JArr [s]))
           else if t = JStr ''string'' then
             (if get d ''format'' = JStr ''date-time'' then Inr (JStr ''2024-01-01T00:00:00Z'')
              else Inr (JStr ''string_example''))
           else if t = JStr ''integer'' then Inr (JInt 0)
           else if t = JStr ''number'' then Inr (JFloat 0)
           else if t = JStr ''boolean'' then Inr (JBool False)
           else Inr JNull)
      | _ \<Rightarrow> Inr JNull)"
| "sample_props [] out = Inr out"
| "sample_props ((k, v) # props) out =
     (case (if is_dict v then sample_from_schema v else Inr JNull) of
        Inl e \<Rightarrow> Inl e
      | Inr s \<Rightarrow> sample_props props (dict_set out k s))"
  by pat_completeness auto
termination
proof -
  let ?m = "\<lambda>x. case x of Inl j \<Rightarrow> 2 * size j | Inr (ps, out) \<Rightarrow> 2 * size (JObj ps) - 1"
  have look: "size v < size (JObj d)" if "map_of d k = Some v" for d :: dict and k v
    using that by (induction d) (auto split: if_splits)
  have nonempty: "size (JObj []) < size (JObj d)" if "d \<noteq> []" for d :: dict
    using that by (cases d) auto
  show ?thesis
  proof (relation "measure ?m")
    show "wf (measure ?m)" by simp
  next
    fix schema d t props
    assume "schema = JObj d"
      and "py_or (get_default d ''properties'' (JObj [])) (JObj []) = JObj props"
    then show "(Inr (props, []), Inl schema) \<in> measure ?m"
      using look[of d "''properties''" "JObj props"]
      by (auto simp: py_or_def get_default_def split: if_splits option.splits)
  next
    fix schema d t
    assume s: "schema = JObj d" and t: "t = get d ''type''" "t = JStr ''array''"
    from t have "d \<noteq> []" by (auto simp: get_def get_default_def)
    with s show "(Inl (get_default d ''items'' (JObj [])), Inl schema) \<in> measure ?m"
      using look[of d "''items''"] nonempty[of d]
      by (auto simp: get_default_def split: option.splits)
  next
    fix k v props out
    show "(Inl v, Inr ((k, v) # props, out)) \<in> measure ?m" by simp
  next
    fix k v props out x
    show "(Inr (props, dict_set out k x), Inr ((k, v) # props, out)) \<in> measure ?m" by simp
  qed
qed




text \<open>
  The sample \<^verbatim>\<open>render_curl\<close> computes for one media type; \<open>JNull\<close> is \<^verbatim>\<open>None\<close>.
\<close>

definition media_sample :: "dict \<Rightarrow> json \<Rightarrow> py_error + json" where
  "media_sample spec c =
     bind (schema_of c) (\<lambda>sch.
       if truthy (get sch ''$ref'') then
         bind (resolve_schema_ref spec (get sch ''$ref'')) (\<lambda>schema_obj.
           if truthy schema_obj then sample_from_schema schema_obj else Inr JNull)
       else sample_from_schema (JObj sch))"

text \<open>
  The loop of \<^verbatim>\<open>render_curl\<close>: the media type and the sample at which it reaches
  \<^verbatim>\<open>break\<close>, or \<open>None\<close> when it runs out.
\<close>

fun curl_loop :: "dict \<Rightarrow> dict \<Rightarrow> py_error + (string \<times> json) option" where
  "curl_loop spec [] = Inr None"
| "curl_loop spec ((mime, c) # content) =
     bind (media_sample spec c) (\<lambda>sample.
       if sample \<noteq> JNull then Inr (Some (mime, sample)) else curl_loop spec content)"

text \<open>What the loop appends to the command.\<close>

definition body_part :: "(json \<Rightarrow> string) \<Rightarrow> (string \<times> json) option \<Rightarrow> string" where
  "body_part dumps found =
     (case found of
        None \<Rightarrow> []
      | Some (mime, sample) \<Rightarrow>
          '' -H '' @ [CHR 0x22] @ ''Content-Type: '' @ mime @ [CHR 0x22]
          @ '' -d '' @ [CHR 0x27] @ dumps sample @ [CHR 0x27])"

definition auth_part :: "dict \<Rightarrow> dict \<Rightarrow> string" where
  "auth_part spec opd =
     (if truthy (py_or (py_or (get opd ''security'') (get spec ''security'')) (JArr []))
      then '' -H '' @ [CHR 0x22] @ ''Authorization: Bearer <TOKEN>'' @ [CHR 0x22]
      else [])"

definition curl_head :: "string \<Rightarrow> string \<Rightarrow> string" where
  "curl_head rt m =
     ''curl -X '' @ upper m @ '' '' @ [CHR 0x22] @ ''http://<HOST>'' @ rt @ [CHR 0x22]"

text \<open>
  \<^verbatim>\<open>render_curl(spec, route, method)\<close>. \<open>dumps\<close> is \<^verbatim>\<open>json.dumps\<close> of the standard
  library, which returns a string for every sample.
\<close>

definition render_curl ::
  "(json \<Rightarrow> string) \<Rightarrow> dict \<Rightarrow> string \<Rightarrow> string \<Rightarrow> py_error + json" where
  "render_curl dumps spec rt m =
     bind (find_operation spec rt m) (\<lambda>op.
       if \<not> truthy op then Inr not_found
       else bind (as_dict op) (\<lambda>opd.
            bind (body_content opd) (\<lambda>content.
            bind (curl_loop spec content) (\<lambda>found.
            Inr (JObj [(''curl'', JStr (curl_head rt m @ body_part dumps found
                                         @ auth_part spec opd))])))))"

subsection \<open>Well-formed schemas and operations\<close>

text \<open>
  A schema is object-typed when \<^verbatim>\<open>sample_from_schema\<close> takes its first branch. A value
  is a well-formed schema when every object-typed dict in it, at any depth, has a
  \<open>properties\<close> mapping (or none, or an empty or null one).
\<close>

definition object_typed :: "dict \<Rightarrow> bool" where
  "object_typed d =
     (get d ''type'' = JStr ''object'' \<or> (\<not> truthy (get d ''type'') \<and> ''properties'' \<in> fst ` set d))"

fun schema_ok :: "json \<Rightarrow> bool"
  and schemas_ok :: "json list \<Rightarrow> bool"
  and props_ok :: "dict \<Rightarrow> bool" where
  "schema_ok (JObj d) =
     ((object_typed d \<longrightarrow> is_dict (py_or (get_default d ''properties'' (JObj [])) (JObj [])))
      \<and> props_ok d)"
| "schema_ok (JArr xs) = schemas_ok xs"
| "schema_ok _ = True"
| "schemas_ok [] = True"
| "schemas_ok (x # xs) = (schema_ok x \<and> schemas_ok xs)"
| "props_ok [] = True"
| "props_ok ((k, v) # kvs) = (schema_ok v \<and> props_ok kvs)"






section \<open>Example inputs\<close>

definition health_zero :: candidate where
  "health_zero = \<lparr> route = ''/health'', method_name = ''get'', summary = JStr ''Health check'',
                    operationId = JNull, schema_refs = [], score = 0 \<rparr>"

definition orders_post :: candidate where
  "orders_post = \<lparr> route = ''/orders'', method_name = ''POST'', summary = JNull,
                    operationId = JNull, schema_refs = [], score = 5 \<rparr>"

text \<open>A backend that cannot be reached, and one that answers with a fixed text.\<close>

definition unreachable :: "string \<Rightarrow> backend_reply" where
  "unreachable prompt = Failure"

definition replies :: "string \<Rightarrow> string \<Rightarrow> backend_reply" where
  "replies answer prompt = Reply answer []"

text \<open>An operation whose operationId and summary both tokenize to \<open>health\<close>.\<close>

definition both_fields :: dict where
  "both_fields = [(''operationId'', JStr ''health''), (''summary'', JStr ''health'')]"


text \<open>The spec with the one operation GET /health.\<close>

definition health_spec :: dict where
  "health_spec =
     [(''paths'', JObj [(''/health'', JObj [(''get'', JObj [(''summary'', JStr ''Health check'')])])])]"

text \<open>
  An operation with two media types: the schema of the first is empty, so its sample is
  \<^verbatim>\<open>None\<close>; the second is an object schema, with the sample \<^verbatim>\<open>{}\<close>.
\<close>

definition two_media_op :: dict where
  "two_media_op =
     [(''requestBody'', JObj [(''content'',
        JObj [(''text/plain'', JObj [(''schema'', JObj [])]),
              (''application/json'', JObj [(''schema'', JObj [(''type'', JStr ''object'')])])])])]"

definition two_media :: dict where
  "two_media = [(''paths'', JObj [(''/orders'', JObj [(''post'', JObj two_media_op)])])]"

text \<open>
  \<^verbatim>\<open>json.dumps\<close> at the samples of the examples: \<^verbatim>\<open>{}\<close> for the empty dict,
  \<^verbatim>\<open>null\<close> for \<^verbatim>\<open>None\<close>.
\<close>

definition dumps_example :: "json \<Rightarrow> string" where
  "dumps_example sample = (if sample = JObj [] then ''{}'' else ''null'')"

text \<open>A spec with the paths \<open>/foo/\<close> and \<open>/foo\<close>, the second with no operation.\<close>

definition slash_collision :: dict where
  "slash_collision =
     [(''paths'', JObj [(''/foo/'', JObj [(''get'', JObj [(''summary'', JStr ''Foo'')])]),
                        (''/foo'', JObj [])])]"

text \<open>A spec with two operations.\<close>

definition two_ops :: dict where
  "two_ops =
     [(''paths'', JObj [(''/orders'', JObj [(''post'', JObj [(''summary'', JStr ''Create an order'')])]),
                        (''/health'', JObj [(''get'', JObj [(''summary'', JStr ''Health check'')])])])]"

text \<open>The candidates of \<open>two_ops\<close> for the query "check the health".\<close>

definition health_seven :: candidate where
  "health_seven = \<lparr> route = ''/health'', method_name = ''get'', summary = JStr ''Health check'',
                     operationId = JNull, schema_refs = [], score = 7 \<rparr>"

definition orders_zero :: candidate where
  "orders_zero = \<lparr> route = ''/orders'', method_name = ''post'',
                    summary = JStr ''Create an order'', operationId = JNull,
                    schema_refs = [], score = 0 \<rparr>"




section \<open>The disambiguator\<close>

lemma bind_Inr: "bind m f = Inr y \<Longrightarrow> \<exists>x. m = Inr x \<and> f x = Inr y"
  by (cases m) (simp_all add: bind_def)

lemma bind_InrE:
  assumes "bind m f = Inr y"
  obtains x where "m = Inr x" and "f x = Inr y"
  using assms by (cases m) (simp_all add: bind_def)


lemma max_score_in: "max_score best cs \<in> set (best # cs)"
  by (induction cs arbitrary: best) auto

lemma confirm_Some:
  "confirm rt m cs = Some ch \<Longrightarrow>
     ch = Chosen rt m \<and> (\<exists>c\<in>set cs. route c = rt \<and> lower (method_name c) = m)"
  by (induction cs) (auto split: if_splits)

lemma valid_method_lower: "m \<in> set VALID_METHODS \<Longrightarrow> lower m = m"
  by (auto simp: VALID_METHODS_def lower_def lower_char_def)

lemma parse_answer_Some:
  assumes "parse_answer answer cs = Some ch"
  shows "\<exists>rt m. ch = Chosen rt m \<and> lower m = m
            \<and> (\<exists>c\<in>set cs. route c = rt \<and> lower (method_name c) = m)"
proof -
  from assms obtain p0 p1 rest where
    parts: "runs (\<lambda>c. \<not> is_space c) [] (strip answer) = p0 # p1 # rest"
    by (auto simp: parse_answer_def split: list.splits)
  let ?m = "normalize_method p1"
  from assms parts have valid: "?m \<in> set VALID_METHODS"
    and conf: "confirm (strip p0) ?m cs = Some ch"
    by (auto simp: parse_answer_def Let_def split: if_splits)
  from confirm_Some[OF conf] valid_method_lower[OF valid] show ?thesis by blast
qed

lemma choose_with_cases:
  assumes "choose_with chat question (c # cs) = Chosen rt m"
  shows "(\<exists>answer. parse_answer answer (c # cs) = Some (Chosen rt m))
       \<or> (rt = route (max_score c cs) \<and> m = method_name (max_score c cs))"
  using assms by (auto simp: Let_def split: sum.splits if_splits option.splits)

text \<open>
  C1. Whatever the call for the answer does (return any text, or raise), a choice other
  than "none" names a candidate of the input list: the route is that candidate's route,
  and the method is its method up to case. This holds for the method over any call and
  for the method as the module runs it.
\<close>

theorem choose_in_candidates:
  "(choose_with chat question candidates = Chosen rt m \<longrightarrow>
      (\<exists>c\<in>set candidates. route c = rt \<and> lower (method_name c) = lower m))
   \<and> (LLMChooser_choose post question candidates = Chosen rt m \<longrightarrow>
      (\<exists>c\<in>set candidates. route c = rt \<and> lower (method_name c) = lower m))"
proof -
  have main: "\<exists>c\<in>set candidates. route c = rt \<and> lower (method_name c) = lower m"
    if h: "choose_with chat' question candidates = Chosen rt m" for chat'
  proof (cases candidates)
    case Nil
    with h show ?thesis by simp
  next
    case (Cons c cs)
    from choose_with_cases[OF h[unfolded Cons]] show ?thesis
    proof
      assume "\<exists>answer. parse_answer answer (c # cs) = Some (Chosen rt m)"
      then obtain answer where "parse_answer answer (c # cs) = Some (Chosen rt m)" ..
      from parse_answer_Some[OF this] show ?thesis using Cons by auto
    next
      assume "rt = route (max_score c cs) \<and> m = method_name (max_score c cs)"
      then show ?thesis using max_score_in[of c cs] Cons by auto
    qed
  qed
  show ?thesis using main by (auto simp: LLMChooser_choose_def)
qed

theorem choose_in_candidates_witness:
  "LLMChooser_choose (replies ''/orders method=Post.'') ''create an order''
       [health_zero, orders_post] = Chosen ''/orders'' ''post''
   \<and> (\<exists>c\<in>set [health_zero, orders_post].
          route c = ''/orders'' \<and> lower (method_name c) = lower ''post'')"
proof -
  have h: "LLMChooser_choose (replies ''/orders method=Post.'') ''create an order''
             [health_zero, orders_post] = Chosen ''/orders'' ''post''"
    by (simp add: LLMChooser_choose_def call_chat_def replies_def parse_answer_def strip_def
        is_space_def upper_def upper_char_def normalize_method_def lower_def lower_char_def
        last_segment_def VALID_METHODS_def health_zero_def orders_post_def)
  from choose_in_candidates[of "\<lambda>p. Inr []" "''create an order''"
      "[health_zero, orders_post]" "''/orders''" "''post''" "replies ''/orders method=Post.''"] h
  show ?thesis by blast
qed

text \<open>
  C2 at an unreachable backend. The backend call yields the empty answer, the top score
  is 5, and the result is "none": the empty answer is tested first and returns at once,
  so the fallback on the scores is not reached. The \<^verbatim>\<open>except\<close> branch of the same
  method, for a call that raises, returns the top-scored candidate for the same list.
\<close>

theorem unreachable_returns_none:
  "call_chat unreachable (format_prompt ''create an order'' [orders_post, health_zero]) = []
   \<and> 0 < score (max_score orders_post [health_zero])
   \<and> LLMChooser_choose unreachable ''create an order'' [orders_post, health_zero] = NoChoice
   \<and> LLMChooser_choose unreachable ''create an order'' [orders_post, health_zero]
       \<noteq> Chosen (route (max_score orders_post [health_zero]))
                 (method_name (max_score orders_post [health_zero]))
   \<and> choose_with (\<lambda>prompt. Inl TypeError) ''create an order'' [orders_post, health_zero]
       = Chosen ''/orders'' ''POST''"
  by (simp add: LLMChooser_choose_def call_chat_def unreachable_def orders_post_def
      health_zero_def)

text \<open>
  C3 at an answer that fails parsing. The only candidate has score 0 and the answer
  \<open>foo\<close> has one token: the fallback inside the \<^verbatim>\<open>try\<close> returns the candidate,
  where the fallback of the \<^verbatim>\<open>except\<close> branch returns "none" for the same list.
\<close>

theorem fallback_ignores_zero_score:
  "score (max_score health_zero []) \<le> 0
   \<and> LLMChooser_choose (replies ''foo'') ''is the system healthy'' [health_zero]
       = Chosen ''/health'' ''get''
   \<and> choose_with (\<lambda>prompt. Inl TypeError) ''is the system healthy'' [health_zero] = NoChoice"
  by (simp add: LLMChooser_choose_def call_chat_def replies_def parse_answer_def strip_def
        is_space_def upper_def upper_char_def health_zero_def)

section \<open>The scorer\<close>

lemma score_loop_sum:
  "score_loop pl ot st dt sn acc ts = acc + (\<Sum>t\<leftarrow>ts. token_score pl ot st dt sn t)"
  by (induction ts arbitrary: acc) (simp_all add: add.assoc)

text \<open>
  C5, as the code has it. The score is the sum over the query tokens of four terms, and
  the term for operationId and summary is 2 when the token is in the tokenized
  operationId or in the tokenized summary, once: a token in both adds 2. The last term
  is 1 when the token is among the lower-cased schema names of the request body and
  the lower-cased parameter names.
\<close>

theorem score_endpoint_per_token:
  assumes "score_endpoint query_tokens path m info cs = Inr s"
  shows "\<exists>op_tokens summary_tokens desc_tokens content body_names params pnames.
           tokens (py_or (get info ''operationId'') (JStr [])) = Inr op_tokens
         \<and> tokens (py_or (get info ''summary'') (JStr [])) = Inr summary_tokens
         \<and> tokens (py_or (get info ''description'') (JStr [])) = Inr desc_tokens
         \<and> (case get_default info ''requestBody'' (JObj []) of
               JObj rb \<Rightarrow> as_dict (get_default rb ''content'' (JObj []))
             | _ \<Rightarrow> Inr []) = Inr content
         \<and> score_body_names content = Inr body_names
         \<and> iterate (py_or (get_default info ''parameters'' (JArr [])) (JArr [])) = Inr params
         \<and> param_names params = Inr pnames
         \<and> s = (\<Sum>t\<leftarrow>query_tokens.
                  (if contains (lower path) t then 3 else 0)
                + (if t \<in> set op_tokens \<or> t \<in> set summary_tokens then 2 else 0)
                + (if t \<in> set desc_tokens then 1 else 0)
                + (if t \<in> set (body_names @ map lower pnames) then 1 else 0))"
proof -
  have idem: "py_or (py_or x (JStr [])) (JStr []) = py_or x (JStr [])" for x
    by (simp add: py_or_def)
  from assms have 0: "bind (tokens (py_or (get info ''summary'') (JStr []))) (\<lambda>summary_tokens.
         bind (tokens (py_or (get info ''description'') (JStr []))) (\<lambda>desc_tokens.
         bind (tokens (py_or (get info ''operationId'') (JStr []))) (\<lambda>op_tokens.
         bind (case get_default info ''requestBody'' (JObj []) of
                 JObj rb \<Rightarrow> as_dict (get_default rb ''content'' (JObj []))
               | _ \<Rightarrow> Inr []) (\<lambda>content.
         bind (score_body_names content) (\<lambda>body_names.
         bind (iterate (py_or (get_default info ''parameters'' (JArr [])) (JArr []))) (\<lambda>params.
         bind (param_names params) (\<lambda>pnames.
         Inr (score_loop (lower path) op_tokens summary_tokens desc_tokens
                (body_names @ map lower pnames) 0 query_tokens)))))))) = Inr s"
    unfolding score_endpoint_def Let_def idem .
  from 0 obtain st where st: "tokens (py_or (get info ''summary'') (JStr [])) = Inr st"
    and 1: "bind (tokens (py_or (get info ''description'') (JStr []))) (\<lambda>desc_tokens.
         bind (tokens (py_or (get info ''operationId'') (JStr []))) (\<lambda>op_tokens.
         bind (case get_default info ''requestBody'' (JObj []) of
                 JObj rb \<Rightarrow> as_dict (get_default rb ''content'' (JObj []))
               | _ \<Rightarrow> Inr []) (\<lambda>content.
         bind (score_body_names content) (\<lambda>body_names.
         bind (iterate (py_or (get_default info ''parameters'' (JArr [])) (JArr []))) (\<lambda>params.
         bind (param_names params) (\<lambda>pnames.
         Inr (score_loop (lower path) op_tokens st desc_tokens
                (body_names @ map lower pnames) 0 query_tokens))))))) = Inr s"
    by (rule bind_InrE)
  from 1 obtain dt where dt: "tokens (py_or (get info ''description'') (JStr [])) = Inr dt"
    and 2: "bind (tokens (py_or (get info ''operationId'') (JStr []))) (\<lambda>op_tokens.
         bind (case get_default info ''requestBody'' (JObj []) of
                 JObj rb \<Rightarrow> as_dict (get_default rb ''content'' (JObj []))
               | _ \<Rightarrow> Inr []) (\<lambda>content.
         bind (score_body_names content) (\<lambda>body_names.
         bind (iterate (py_or (get_default info ''parameters'' (JArr [])) (JArr []))) (\<lambda>params.
         bind (param_names params) (\<lambda>pnames.
         Inr (score_loop (lower path) op_tokens st dt
                (body_names @ map lower pnames) 0 query_tokens)))))) = Inr s"
    by (rule bind_InrE)
  from 2 obtain ot where ot: "tokens (py_or (get info ''operationId'') (JStr [])) = Inr ot"
    and 3: "bind (case get_default info ''requestBody'' (JObj []) of
                 JObj rb \<Rightarrow> as_dict (get_default rb ''content'' (JObj []))
               | _ \<Rightarrow> Inr []) (\<lambda>content.
         bind (score_body_names content) (\<lambda>body_names.
         bind (iterate (py_or (get_default info ''parameters'' (JArr [])) (JArr []))) (\<lambda>params.
         bind (param_names params) (\<lambda>pnames.
         Inr (score_loop (lower path) ot st dt
                (body_names @ map lower pnames) 0 query_tokens))))) = Inr s"
    by (rule bind_InrE)
  from 3 obtain content where content: "(case get_default info ''requestBody'' (JObj []) of
                 JObj rb \<Rightarrow> as_dict (get_default rb ''content'' (JObj []))
               | _ \<Rightarrow> Inr []) = Inr content"
    and 4: "bind (score_body_names content) (\<lambda>body_names.
         bind (iterate (py_or (get_default info ''parameters'' (JArr [])) (JArr []))) (\<lambda>params.
         bind (param_names params) (\<lambda>pnames.
         Inr (score_loop (lower path) ot st dt
                (body_names @ map lower pnames) 0 query_tokens)))) = Inr s"
    by (rule bind_InrE)
  from 4 obtain bn where bn: "score_body_names content = Inr bn"
    and 5: "bind (iterate (py_or (get_default info ''parameters'' (JArr [])) (JArr []))) (\<lambda>params.
         bind (param_names params) (\<lambda>pnames.
         Inr (score_loop (lower path) ot st dt
                (bn @ map lower pnames) 0 query_tokens))) = Inr s"
    by (rule bind_InrE)
  from 5 obtain params where params:
      "iterate (py_or (get_default info ''parameters'' (JArr [])) (JArr [])) = Inr params"
    and 6: "bind (param_names params) (\<lambda>pnames.
         Inr (score_loop (lower path) ot st dt
                (bn @ map lower pnames) 0 query_tokens)) = Inr s"
    by (rule bind_InrE)
  from bind_Inr[OF 6] obtain pn where pn: "param_names params = Inr pn"
    and 7: "Inr (score_loop (lower path) ot st dt (bn @ map lower pn) 0 query_tokens) = Inr s"
    by blast
  from 7 have "s = (\<Sum>t\<leftarrow>query_tokens.
                  (if contains (lower path) t then 3 else 0)
                + (if t \<in> set ot \<or> t \<in> set st then 2 else 0)
                + (if t \<in> set dt then 1 else 0)
                + (if t \<in> set (bn @ map lower pn) then 1 else 0))"
    by (simp add: score_loop_sum token_score_def)
  with st dt ot content bn params pn show ?thesis by (intro exI conjI)
qed

theorem score_endpoint_per_token_witness:
  "score_endpoint [''health'', ''check''] ''/x'' ''get'' both_fields (JObj []) = Inr 2
   \<and> (\<exists>op_tokens summary_tokens desc_tokens content body_names params pnames.
           tokens (py_or (get both_fields ''operationId'') (JStr [])) = Inr op_tokens
         \<and> tokens (py_or (get both_fields ''summary'') (JStr [])) = Inr summary_tokens
         \<and> tokens (py_or (get both_fields ''description'') (JStr [])) = Inr desc_tokens
         \<and> (case get_default both_fields ''requestBody'' (JObj []) of
               JObj rb \<Rightarrow> as_dict (get_default rb ''content'' (JObj []))
             | _ \<Rightarrow> Inr []) = Inr content
         \<and> score_body_names content = Inr body_names
         \<and> iterate (py_or (get_default both_fields ''parameters'' (JArr [])) (JArr [])) = Inr params
         \<and> param_names params = Inr pnames
         \<and> (2::real) = (\<Sum>t\<leftarrow>[''health'', ''check''].
                  (if contains (lower ''/x'') t then 3 else 0)
                + (if t \<in> set op_tokens \<or> t \<in> set summary_tokens then 2 else 0)
                + (if t \<in> set desc_tokens then 1 else 0)
                + (if t \<in> set (body_names @ map lower pnames) then 1 else 0)))"
proof -
  have h: "score_endpoint [''health'', ''check''] ''/x'' ''get'' both_fields (JObj []) = Inr 2"
    by (simp add: score_endpoint_def Let_def bind_def get_def get_default_def py_or_def
        tokens_def tokens_str_def lower_def lower_char_def is_token_char_def token_score_def
        both_fields_def)
  from h score_endpoint_per_token[OF h] show ?thesis by (rule conjI)
qed

text \<open>
  C5 as stated fails: the token \<open>health\<close> is in the tokenized operationId and in the
  tokenized summary, and the score is 2, not 4.
\<close>

theorem both_fields_counterexample:
  "tokens (get both_fields ''operationId'') = Inr [''health'']
   \<and> tokens (get both_fields ''summary'') = Inr [''health'']
   \<and> score_endpoint [''health''] ''/x'' ''get'' both_fields (JObj []) = Inr 2
   \<and> score_endpoint [''health''] ''/x'' ''get'' both_fields (JObj []) \<noteq> Inr 4"
  by (simp add: score_endpoint_def Let_def bind_def get_def get_default_def py_or_def
        tokens_def tokens_str_def lower_def lower_char_def is_token_char_def token_score_def
        both_fields_def)

section \<open>The candidate ranker\<close>

lemma tokens_text_field:
  "text_field info k \<Longrightarrow>
     \<exists>ts. tokens (py_or (py_or (get info k) (JStr [])) (JStr [])) = Inr ts"
  by (cases "get info k") (auto simp: text_field_def tokens_def py_or_def)

lemma score_body_names_total:
  "list_all wf_media (map snd content) \<Longrightarrow> \<exists>names. score_body_names content = Inr names"
proof (induction content)
  case Nil
  then show ?case by simp
next
  case (Cons mc content)
  obtain mime c where mc: "mc = (mime, c)" by (cases mc)
  from Cons.prems have wf: "wf_media c" and rest: "list_all wf_media (map snd content)"
    by (simp_all add: mc)
  from Cons.IH[OF rest] obtain names where names: "score_body_names content = Inr names" ..
  from wf obtain sch where
    "as_dict (case c of JObj cd \<Rightarrow> get_default cd ''schema'' (JObj []) | _ \<Rightarrow> JObj []) = Inr sch"
    by (cases c; cases "case c of JObj cd \<Rightarrow> get_default cd ''schema'' (JObj []) | _ \<Rightarrow> JObj []")
       (simp_all add: wf_media_def)
  with names show ?case by (simp add: mc bind_def)
qed

lemma cand_body_refs_total:
  "list_all wf_media (map snd content) \<Longrightarrow> \<exists>refs. cand_body_refs content = Inr refs"
proof (induction content)
  case Nil
  then show ?case by simp
next
  case (Cons mc content)
  obtain mime c where mc: "mc = (mime, c)" by (cases mc)
  from Cons.prems have wf: "wf_media c" and rest: "list_all wf_media (map snd content)"
    by (simp_all add: mc)
  from Cons.IH[OF rest] obtain refs where refs: "cand_body_refs content = Inr refs" ..
  show ?case
  proof (cases c)
    case (JObj cd)
    with wf obtain sch where "get_default cd ''schema'' (JObj []) = JObj sch"
      by (cases "get_default cd ''schema'' (JObj [])") (simp_all add: wf_media_def)
    then have "\<exists>sch'. as_dict (py_or (get_default cd ''schema'' (JObj [])) (JObj [])) = Inr sch'"
      by (simp add: py_or_def)
    with refs JObj show ?thesis by (auto simp: mc bind_def)
  qed (use refs in \<open>simp_all add: mc\<close>)
qed

lemma param_names_total:
  "list_all wf_param ps \<Longrightarrow> \<exists>names. param_names ps = Inr names"
proof (induction ps)
  case Nil
  then show ?case by simp
next
  case (Cons p ps)
  from Cons.prems have wf: "wf_param p" and rest: "list_all wf_param ps" by simp_all
  from Cons.IH[OF rest] obtain names where names: "param_names ps = Inr names" ..
  from wf obtain pd where p: "p = JObj pd" by (cases p) (simp_all add: wf_param_def)
  with wf obtain psch where
    "as_dict (py_or (get_default pd ''schema'' (JObj [])) (JObj [])) = Inr psch"
    by (cases "py_or (get_default pd ''schema'' (JObj [])) (JObj [])") (simp_all add: wf_param_def)
  with names p show ?case by (simp add: bind_def)
qed

lemma parameters_total:
  assumes "wf_parameters ps"
  shows "\<exists>xs names. iterate (py_or ps (JArr [])) = Inr xs \<and> param_names xs = Inr names"
proof -
  from assms obtain xs where xs: "py_or ps (JArr []) = JArr xs" and wf: "list_all wf_param xs"
    by (cases "py_or ps (JArr [])") (simp_all add: wf_parameters_def)
  from param_names_total[OF wf] xs show ?thesis by auto
qed

lemma score_content_total:
  assumes "wf_request_body rb"
  shows "\<exists>content names.
           (case rb of JObj d \<Rightarrow> as_dict (get_default d ''content'' (JObj [])) | _ \<Rightarrow> Inr [])
             = Inr content
         \<and> score_body_names content = Inr names"
proof (cases rb)
  case (JObj d)
  with assms obtain content where c: "get_default d ''content'' (JObj []) = JObj content"
    and wf: "list_all wf_media (map snd content)"
    by (cases "get_default d ''content'' (JObj [])") (simp_all add: wf_request_body_def)
  from score_body_names_total[OF wf] c JObj show ?thesis by auto
qed simp_all

lemma cand_content_total:
  assumes "wf_request_body rb"
  shows "\<exists>content refs.
           (case py_or rb (JObj []) of
              JObj d \<Rightarrow> as_dict (get_default d ''content'' (JObj [])) | _ \<Rightarrow> Inr [])
             = Inr content
         \<and> cand_body_refs content = Inr refs"
proof (cases "truthy rb")
  case False
  then show ?thesis by (simp add: py_or_def get_default_def)
next
  case True
  show ?thesis
  proof (cases rb)
    case (JObj d)
    with assms obtain content where c: "get_default d ''content'' (JObj []) = JObj content"
      and wf: "list_all wf_media (map snd content)"
      by (cases "get_default d ''content'' (JObj [])") (simp_all add: wf_request_body_def)
    from cand_body_refs_total[OF wf] c JObj True show ?thesis by (auto simp: py_or_def)
  qed (use True in \<open>simp_all add: py_or_def\<close>)
qed

lemma score_endpoint_total:
  assumes "wf_operation info"
  shows "\<exists>s. score_endpoint toks rt m info cs = Inr s"
proof -
  from assms have tf: "text_field info ''summary''" "text_field info ''description''"
      "text_field info ''operationId''"
    and rb: "wf_request_body (get_default info ''requestBody'' (JObj []))"
    and ps: "wf_parameters (get_default info ''parameters'' (JArr []))"
    by (simp_all add: wf_operation_def)
  from tokens_text_field[OF tf(1)] obtain st where
    st: "tokens (py_or (py_or (get info ''summary'') (JStr [])) (JStr [])) = Inr st" ..
  from tokens_text_field[OF tf(2)] obtain dt where
    dt: "tokens (py_or (py_or (get info ''description'') (JStr [])) (JStr [])) = Inr dt" ..
  from tokens_text_field[OF tf(3)] obtain ot where
    ot: "tokens (py_or (py_or (get info ''operationId'') (JStr [])) (JStr [])) = Inr ot" ..
  from score_content_total[OF rb] obtain content names where
    content: "(case get_default info ''requestBody'' (JObj []) of
                 JObj d \<Rightarrow> as_dict (get_default d ''content'' (JObj [])) | _ \<Rightarrow> Inr [])
               = Inr content"
    and names: "score_body_names content = Inr names" by blast
  from parameters_total[OF ps] obtain xs pnames where
    xs: "iterate (py_or (get_default info ''parameters'' (JArr [])) (JArr [])) = Inr xs"
    and pnames: "param_names xs = Inr pnames" by blast
  show ?thesis
    by (simp add: score_endpoint_def Let_def st dt ot content names xs pnames bind_def)
qed

lemma make_candidate_total:
  assumes "wf_operation info"
  shows "\<exists>c. make_candidate toks cs rt m info = Inr c \<and> route c = rt \<and> method_name c = m"
proof -
  from assms have rb: "wf_request_body (get_default info ''requestBody'' (JObj []))"
    and ps: "wf_parameters (get_default info ''parameters'' (JArr []))"
    by (simp_all add: wf_operation_def)
  from score_endpoint_total[OF assms] obtain s where
    s: "score_endpoint toks rt m info cs = Inr s" ..
  from cand_content_total[OF rb] obtain content refs where
    content: "(case py_or (get_default info ''requestBody'' (JObj [])) (JObj []) of
                 JObj d \<Rightarrow> as_dict (get_default d ''content'' (JObj [])) | _ \<Rightarrow> Inr [])
               = Inr content"
    and refs: "cand_body_refs content = Inr refs" by blast
  from parameters_total[OF ps] obtain xs pnames where
    xs: "iterate (py_or (get_default info ''parameters'' (JArr [])) (JArr [])) = Inr xs"
    and pnames: "param_names xs = Inr pnames" by blast
  show ?thesis
    by (simp add: make_candidate_def s content refs xs pnames bind_def)
qed


lemma route_candidates_total:
  "list_all wf_entry (map snd ms) \<Longrightarrow>
     \<exists>cands. route_candidates toks cs rt ms = Inr cands
       \<and> map (\<lambda>c. (route c, method_name c)) cands
           = map (\<lambda>kv. (rt, fst kv)) (filter (\<lambda>kv. is_dict (snd kv)) ms)"
proof (induction ms)
  case Nil
  then show ?case by simp
next
  case (Cons mi ms)
  obtain m info where mi: "mi = (m, info)" by (cases mi)
  from Cons.prems have wf: "wf_entry info" and rest: "list_all wf_entry (map snd ms)"
    by (simp_all add: mi)
  from Cons.IH[OF rest] obtain cands where
    cands: "route_candidates toks cs rt ms = Inr cands"
    and ops: "map (\<lambda>c. (route c, method_name c)) cands
                = map (\<lambda>kv. (rt, fst kv)) (filter (\<lambda>kv. is_dict (snd kv)) ms)"
    by blast
  show ?case
  proof (cases info)
    case (JObj d)
    with wf have "wf_operation d" by (simp add: wf_entry_def)
    from make_candidate_total[OF this] obtain c where
      c: "make_candidate toks cs rt m d = Inr c" "route c = rt" "method_name c = m" by blast
    show ?thesis
    proof (intro exI conjI)
      show "route_candidates toks cs rt (mi # ms) = Inr (c # cands)"
        by (simp add: mi JObj c cands bind_def)
      show "map (\<lambda>c. (route c, method_name c)) (c # cands)
              = map (\<lambda>kv. (rt, fst kv)) (filter (\<lambda>kv. is_dict (snd kv)) (mi # ms))"
        by (simp add: mi JObj c ops)
    qed
  qed (use cands ops in \<open>simp_all add: mi\<close>)
qed

lemma all_candidates_total:
  "list_all wf_path_item (map snd paths) \<Longrightarrow>
     \<exists>cands. all_candidates toks cs paths = Inr cands
       \<and> map (\<lambda>c. (route c, method_name c)) cands
           = concat (map (\<lambda>kv. path_operations (fst kv) (snd kv)) paths)"
proof (induction paths)
  case Nil
  then show ?case by simp
next
  case (Cons rm paths)
  obtain rt methods where rm: "rm = (rt, methods)" by (cases rm)
  from Cons.prems have wf: "wf_path_item methods"
    and rest: "list_all wf_path_item (map snd paths)"
    by (simp_all add: rm)
  from Cons.IH[OF rest] obtain cands where
    cands: "all_candidates toks cs paths = Inr cands"
    and ops: "map (\<lambda>c. (route c, method_name c)) cands
                = concat (map (\<lambda>kv. path_operations (fst kv) (snd kv)) paths)"
    by blast
  from wf obtain ms where ms: "py_or methods (JObj []) = JObj ms"
    and entries: "list_all wf_entry (map snd ms)"
    by (cases "py_or methods (JObj [])") (simp_all add: wf_path_item_def)
  from route_candidates_total[OF entries] obtain here where
    here: "route_candidates toks cs rt ms = Inr here"
    and here_ops: "map (\<lambda>c. (route c, method_name c)) here
                     = map (\<lambda>kv. (rt, fst kv)) (filter (\<lambda>kv. is_dict (snd kv)) ms)"
    by blast
  show ?case
  proof (intro exI conjI)
    show "all_candidates toks cs (rm # paths) = Inr (here @ cands)"
      by (simp add: rm ms here cands bind_def)
    show "map (\<lambda>c. (route c, method_name c)) (here @ cands)
            = concat (map (\<lambda>kv. path_operations (fst kv) (snd kv)) (rm # paths))"
      by (simp add: rm here_ops ops path_operations_def ms)
  qed
qed

lemma find_candidates_slices:
  assumes "wf_spec spec"
  shows "\<exists>paths cands. spec_paths spec = Inr paths
           \<and> map (\<lambda>c. (route c, method_name c)) cands = operations spec
           \<and> (\<forall>k. find_candidates spec query k
                    = Inr (slice_to k (sort_key sort_key_of cands)))"
proof -
  from assms obtain components where
    comp: "as_dict (py_or (get spec ''components'') (JObj [])) = Inr components"
    by (cases "py_or (get spec ''components'') (JObj [])") (simp_all add: wf_spec_def)
  from assms obtain paths where paths: "spec_paths spec = Inr paths"
    and items: "list_all wf_path_item (map snd paths)"
    by (cases "spec_paths spec") (simp_all add: wf_spec_def)
  from all_candidates_total[OF items] obtain cands where
    cands: "all_candidates (tokens_str query) (py_or (get components ''schemas'') (JObj [])) paths
              = Inr cands"
    and ops: "map (\<lambda>c. (route c, method_name c)) cands
                = concat (map (\<lambda>kv. path_operations (fst kv) (snd kv)) paths)"
    by blast
  show ?thesis
  proof (intro exI conjI allI)
    show "spec_paths spec = Inr paths" by fact
    show "map (\<lambda>c. (route c, method_name c)) cands = operations spec"
      by (simp add: operations_def paths ops)
    show "find_candidates spec query k = Inr (slice_to k (sort_key sort_key_of cands))" for k
      by (simp add: find_candidates_def Let_def comp paths cands bind_def)
  qed
qed

lemma find_candidates_all:
  assumes "wf_spec spec"
  shows "\<exists>paths cands. spec_paths spec = Inr paths
           \<and> map (\<lambda>c. (route c, method_name c)) cands = operations spec
           \<and> find_candidates spec query top_k
               = Inr (slice_to top_k (sort_key sort_key_of cands))"
proof -
  from assms obtain components where
    comp: "as_dict (py_or (get spec ''components'') (JObj [])) = Inr components"
    by (cases "py_or (get spec ''components'') (JObj [])") (simp_all add: wf_spec_def)
  from assms obtain paths where paths: "spec_paths spec = Inr paths"
    and items: "list_all wf_path_item (map snd paths)"
    by (cases "spec_paths spec") (simp_all add: wf_spec_def)
  from all_candidates_total[OF items] obtain cands where
    cands: "all_candidates (tokens_str query) (py_or (get components ''schemas'') (JObj [])) paths
              = Inr cands"
    and ops: "map (\<lambda>c. (route c, method_name c)) cands
                = concat (map (\<lambda>kv. path_operations (fst kv) (snd kv)) paths)"
    by blast
  show ?thesis
  proof (intro exI conjI)
    show "spec_paths spec = Inr paths" by fact
    show "map (\<lambda>c. (route c, method_name c)) cands = operations spec"
      by (simp add: operations_def paths ops)
    show "find_candidates spec query top_k = Inr (slice_to top_k (sort_key sort_key_of cands))"
      by (simp add: find_candidates_def Let_def comp paths cands bind_def)
  qed
qed

lemma slice_to_subset: "set (slice_to k xs) \<subseteq> set xs"
  by (auto simp: slice_to_def dest: in_set_takeD)

lemma slice_to_length:
  "length (slice_to k xs)
     = (if 0 \<le> k then min (nat k) (length xs) else nat (int (length xs) + k))"
  by (auto simp: slice_to_def)

lemma slice_to_sorted:
  assumes "sorted (map f xs)"
  shows "sorted (map f (slice_to k xs))"
proof -
  have "sorted (map f (take n xs))" for n
    using sorted_wrt_take[OF assms, of n] by (simp add: take_map)
  then show ?thesis by (simp add: slice_to_def)
qed

lemma operations_routes:
  assumes "spec_paths spec = Inr paths" and "(rt, m) \<in> set (operations spec)"
  shows "rt \<in> fst ` set paths"
proof -
  from assms obtain kv where kv: "kv \<in> set paths" and "(rt, m) \<in> set (path_operations (fst kv) (snd kv))"
    by (auto simp: operations_def)
  then have "rt = fst kv"
    by (cases "py_or (snd kv) (JObj [])") (auto simp: path_operations_def)
  with kv show ?thesis by simp
qed

lemma sort_key_order:
  assumes "sort_key_of a \<le> sort_key_of b"
  shows "score b < score a
       \<or> (score b = score a
          \<and> (route a < route b \<or> (route a = route b \<and> method_name a \<le> method_name b)))"
  using assms by (auto simp: sort_key_of_def less_eq_prod_def)

text \<open>
  C4, as the code has it. For a well-formed spec and every query, \<^verbatim>\<open>find_candidates\<close>
  returns a list; for \<open>top_k \<ge> 0\<close> it has at most \<open>top_k\<close> candidates; for every
  \<open>top_k\<close> it is sorted by score descending, then route ascending, then method
  ascending, and every route in it is a key of the spec's paths mapping. For a negative
  \<open>top_k\<close> it is the full ranking without its last \<open>|top_k|\<close> candidates.
\<close>

theorem find_candidates_ranked:
  assumes "wf_spec spec"
  shows "\<exists>cs paths.
           find_candidates spec query top_k = Inr cs \<and> spec_paths spec = Inr paths
         \<and> (0 \<le> top_k \<longrightarrow> int (length cs) \<le> top_k)
         \<and> sorted (map sort_key_of cs)
         \<and> (\<forall>i j. i < j \<and> j < length cs \<longrightarrow>
               score (cs ! j) < score (cs ! i)
             \<or> (score (cs ! j) = score (cs ! i)
                \<and> (route (cs ! i) < route (cs ! j)
                   \<or> (route (cs ! i) = route (cs ! j)
                      \<and> method_name (cs ! i) \<le> method_name (cs ! j)))))
         \<and> (\<forall>c\<in>set cs. route c \<in> fst ` set paths)
         \<and> (top_k < 0 \<longrightarrow>
              (\<exists>ranked. find_candidates spec query (int (length (operations spec))) = Inr ranked
                 \<and> length ranked = length (operations spec)
                 \<and> cs = take (length ranked - nat (- top_k)) ranked))"
proof -
  from find_candidates_slices[OF assms, of query] obtain paths cands where
    paths: "spec_paths spec = Inr paths"
    and ops: "map (\<lambda>c. (route c, method_name c)) cands = operations spec"
    and all: "\<forall>k. find_candidates spec query k = Inr (slice_to k (sort_key sort_key_of cands))"
    by blast
  from all have res: "find_candidates spec query top_k
                        = Inr (slice_to top_k (sort_key sort_key_of cands))" by simp
  let ?ranked = "sort_key sort_key_of cands"
  let ?cs = "slice_to top_k ?ranked"
  from ops have n: "length ?ranked = length (operations spec)"
    by (metis length_map length_sort)
  have sorted: "sorted (map sort_key_of ?cs)"
    by (rule slice_to_sorted) (rule sorted_sort_key)
  have len: "0 \<le> top_k \<longrightarrow> int (length ?cs) \<le> top_k"
    by (auto simp: slice_to_length min_def)
  have order: "\<forall>i j. i < j \<and> j < length ?cs \<longrightarrow>
               score (?cs ! j) < score (?cs ! i)
             \<or> (score (?cs ! j) = score (?cs ! i)
                \<and> (route (?cs ! i) < route (?cs ! j)
                   \<or> (route (?cs ! i) = route (?cs ! j)
                      \<and> method_name (?cs ! i) \<le> method_name (?cs ! j))))"
  proof (intro allI impI)
    fix i j assume ij: "i < j \<and> j < length ?cs"
    then have "map sort_key_of ?cs ! i \<le> map sort_key_of ?cs ! j"
      using sorted by (simp add: sorted_iff_nth_mono del: nth_map)
    with ij have "sort_key_of (?cs ! i) \<le> sort_key_of (?cs ! j)" by simp
    then show "score (?cs ! j) < score (?cs ! i)
             \<or> (score (?cs ! j) = score (?cs ! i)
                \<and> (route (?cs ! i) < route (?cs ! j)
                   \<or> (route (?cs ! i) = route (?cs ! j)
                      \<and> method_name (?cs ! i) \<le> method_name (?cs ! j))))"
      by (rule sort_key_order)
  qed
  have routes: "\<forall>c\<in>set ?cs. route c \<in> fst ` set paths"
  proof
    fix c assume "c \<in> set ?cs"
    with slice_to_subset[of top_k ?ranked] have "c \<in> set cands" by auto
    then have "(route c, method_name c) \<in> set (map (\<lambda>c. (route c, method_name c)) cands)"
      by (rule_tac imageI[of c "set cands" "\<lambda>c. (route c, method_name c)", simplified set_map[symmetric]])
    then have "(route c, method_name c) \<in> set (operations spec)" by (simp only: ops)
    with paths show "route c \<in> fst ` set paths" by (rule operations_routes)
  qed
  have neg: "top_k < 0 \<longrightarrow>
              (\<exists>ranked. find_candidates spec query (int (length (operations spec))) = Inr ranked
                 \<and> length ranked = length (operations spec)
                 \<and> ?cs = take (length ranked - nat (- top_k)) ranked)"
  proof
    assume k: "top_k < 0"
    have full: "find_candidates spec query (int (length (operations spec))) = Inr ?ranked"
      using all n by (simp add: slice_to_def)
    from k have "nat (int (length ?ranked) + top_k) = length ?ranked - nat (- top_k)" by arith
    with k have "?cs = take (length ?ranked - nat (- top_k)) ?ranked"
      by (simp add: slice_to_def)
    with full n show "\<exists>ranked. find_candidates spec query (int (length (operations spec))) = Inr ranked
                 \<and> length ranked = length (operations spec)
                 \<and> ?cs = take (length ranked - nat (- top_k)) ranked" by blast
  qed
  show ?thesis
  proof (intro exI conjI)
    show "find_candidates spec query top_k = Inr ?cs" by (rule res)
    show "spec_paths spec = Inr paths" by (rule paths)
  qed (rule len sorted order routes neg)+
qed

theorem find_candidates_ranked_witness:
  "wf_spec two_ops
   \<and> find_candidates two_ops ''check the health'' 2 = Inr [health_seven, orders_zero]
   \<and> int (length [health_seven, orders_zero]) \<le> 2
   \<and> sorted (map sort_key_of [health_seven, orders_zero])"
proof -
  have w: "wf_spec two_ops" by code_simp
  have e: "find_candidates two_ops ''check the health'' 2 = Inr [health_seven, orders_zero]"
    by code_simp
  from find_candidates_ranked[OF w, of "''check the health''" 2] e
  have "int (length [health_seven, orders_zero]) \<le> 2"
    and "sorted (map sort_key_of [health_seven, orders_zero])"
    by auto
  with w e show ?thesis by simp
qed

text \<open>
  C4 as stated fails for a negative \<open>top_k\<close>: the slice \<^verbatim>\<open>candidates[:-1]\<close> drops
  the last of the two candidates and returns one, which is more than \<open>top_k = -1\<close>.
\<close>

theorem negative_top_k_counterexample:
  "wf_spec two_ops
   \<and> find_candidates two_ops ''check the health'' (- 1) = Inr [health_seven]
   \<and> \<not> int (length [health_seven]) \<le> - 1"
proof -
  have w: "wf_spec two_ops" by code_simp
  have e: "find_candidates two_ops ''check the health'' (- 1) = Inr [health_seven]"
    by code_simp
  from w e show ?thesis by simp
qed

text \<open>
  C6, as the code has it. For a well-formed spec \<^verbatim>\<open>find_candidates\<close> does not raise.
  The number of candidates it returns is the number of operations of the spec cut to
  \<open>top_k\<close> by the slice; for \<open>top_k > 0\<close> the result is empty exactly when the spec
  has no operation. As a function of its three arguments the model is pure by
  construction.
\<close>

theorem find_candidates_total:
  assumes "wf_spec spec"
  shows "\<exists>cs. find_candidates spec query top_k = Inr cs
         \<and> length cs = (if 0 \<le> top_k then min (nat top_k) (length (operations spec))
                        else nat (int (length (operations spec)) + top_k))
         \<and> (0 < top_k \<longrightarrow> (cs = [] \<longleftrightarrow> operations spec = []))"
proof -
  from find_candidates_all[OF assms, of query top_k] obtain paths cands where
    ops: "map (\<lambda>c. (route c, method_name c)) cands = operations spec"
    and res: "find_candidates spec query top_k = Inr (slice_to top_k (sort_key sort_key_of cands))"
    by blast
  let ?cs = "slice_to top_k (sort_key sort_key_of cands)"
  from ops have n: "length cands = length (operations spec)"
    by (metis length_map)
  have len: "length ?cs = (if 0 \<le> top_k then min (nat top_k) (length (operations spec))
                        else nat (int (length (operations spec)) + top_k))"
    by (simp add: slice_to_length n)
  have "0 < top_k \<longrightarrow> (?cs = [] \<longleftrightarrow> operations spec = [])"
  proof
    assume "0 < top_k"
    then have "length ?cs = 0 \<longleftrightarrow> length (operations spec) = 0"
      unfolding len by (auto simp: min_def split: if_splits)
    then show "?cs = [] \<longleftrightarrow> operations spec = []" by simp
  qed
  with res len show ?thesis by blast
qed

theorem find_candidates_total_witness:
  "wf_spec health_spec
   \<and> find_candidates health_spec ''is the system healthy'' 10 = Inr [health_zero]
   \<and> length [health_zero] = min (nat 10) (length (operations health_spec))
   \<and> operations health_spec \<noteq> []"
proof -
  have w: "wf_spec health_spec" by code_simp
  have e: "find_candidates health_spec ''is the system healthy'' 10 = Inr [health_zero]"
    by code_simp
  from find_candidates_total[OF w, of "''is the system healthy''" 10] e
  have "length [health_zero] = min (nat 10) (length (operations health_spec))"
    and "operations health_spec \<noteq> []"
    by auto
  with w e show ?thesis by simp
qed

text \<open>
  C6 as stated fails for \<open>top_k = 0\<close>: the result is empty and the spec has one
  operation.
\<close>

theorem zero_top_k_counterexample:
  "wf_spec health_spec
   \<and> find_candidates health_spec ''is the system healthy'' 0 = Inr []
   \<and> operations health_spec = [(''/health'', ''get'')]"
proof -
  have w: "wf_spec health_spec" by code_simp
  have e: "find_candidates health_spec ''is the system healthy'' 0 = Inr []" by code_simp
  have o: "operations health_spec = [(''/health'', ''get'')]" by code_simp
  from w e o show ?thesis by simp
qed

section \<open>The sample generator\<close>

text \<open>
  C7 at a malformed schema. For an object schema whose \<open>properties\<close> is a non-empty list,
  \<^verbatim>\<open>props.items()\<close> raises: the function does not return a value.
\<close>

theorem sample_from_schema_raises:
  "sample_from_schema (JObj [(''type'', JStr ''object''), (''properties'', JArr [JStr ''name''])])
     = Inl AttributeError"
  by (simp add: get_def get_default_def py_or_def)

section \<open>The operation resolver\<close>



lemma slash_match_in: "slash_match rt ks = Some p \<Longrightarrow> p \<in> set ks"
  by (induction ks) (auto split: if_splits)













text \<open>
  With both \<open>/foo/\<close> and \<open>/foo\<close> among the paths, the second with an empty item and after
  the first, the lookup of \<open>/foo\<close> goes on to \<open>/foo/\<close>.
\<close>

lemma slash_collision_lookup:
  "spec_paths slash_collision
     = Inr [(''/foo/'', JObj [(''get'', JObj [(''summary'', JStr ''Foo'')])]), (''/foo'', JObj [])]
   \<and> render_summary slash_collision ''/foo'' ''get''
     = Inr (JObj [(''route'', JStr ''/foo''), (''method'', JStr ''get''),
                  (''summary'', JStr ''Foo''), (''description'', JNull),
                  (''operationId'', JNull), (''schema_refs'', JArr [])])"
  by (simp add: spec_paths_def slash_collision_def render_summary_def find_operation_def
      bind_def get_def get_default_def py_or_def Let_def rstrip_slash_def lower_def lower_char_def
      collect_schema_refs_def body_content_def not_found_def)

section \<open>The renderers\<close>


lemma props_ok_all: "props_ok d \<Longrightarrow> (k, v) \<in> set d \<Longrightarrow> schema_ok v"
  by (induction d) auto


























section \<open>The command synthesizer\<close>

lemma curl_loop_step:
  "curl_loop spec ((mime, c) # content) = Inr found \<Longrightarrow>
     \<exists>sample. media_sample spec c = Inr sample
       \<and> (if sample \<noteq> JNull then found = Some (mime, sample)
          else curl_loop spec content = Inr found)"
proof -
  assume "curl_loop spec ((mime, c) # content) = Inr found"
  then have "bind (media_sample spec c) (\<lambda>sample.
       if sample \<noteq> JNull then Inr (Some (mime, sample)) else curl_loop spec content) = Inr found"
    by (simp only: curl_loop.simps)
  from bind_Inr[OF this] obtain sample where
    "media_sample spec c = Inr sample"
    "(if sample \<noteq> JNull then Inr (Some (mime, sample)) else curl_loop spec content) = Inr found"
    by blast
  then show ?thesis by (intro exI[of _ sample]) (simp split: if_splits)
qed

lemma curl_loop_None:
  "curl_loop spec content = Inr None \<Longrightarrow> \<forall>mc\<in>set content. media_sample spec (snd mc) = Inr JNull"
proof (induction content)
  case Nil
  then show ?case by simp
next
  case (Cons mc content)
  obtain mime c where mc: "mc = (mime, c)" by (cases mc)
  from curl_loop_step[OF Cons.prems[unfolded mc]] obtain sample where
    "media_sample spec c = Inr sample" "sample = JNull" "curl_loop spec content = Inr None"
    by (auto split: if_splits)
  with Cons.IH show ?case by (simp add: mc)
qed

lemma curl_loop_Some:
  "curl_loop spec content = Inr (Some (mime, sample)) \<Longrightarrow>
     \<exists>before c after. content = before @ (mime, c) # after
       \<and> media_sample spec c = Inr sample \<and> sample \<noteq> JNull
       \<and> (\<forall>mc\<in>set before. media_sample spec (snd mc) = Inr JNull)"
proof (induction content)
  case Nil
  then show ?case by simp
next
  case (Cons mc content)
  obtain mime0 c0 where mc: "mc = (mime0, c0)" by (cases mc)
  from curl_loop_step[OF Cons.prems[unfolded mc]] obtain sample0 where
    s0: "media_sample spec c0 = Inr sample0"
    and step: "if sample0 \<noteq> JNull then Some (mime, sample) = Some (mime0, sample0)
               else curl_loop spec content = Inr (Some (mime, sample))"
    by blast
  show ?case
  proof (cases "sample0 = JNull")
    case False
    with step have eq: "mime0 = mime" "sample0 = sample" by simp_all
    show ?thesis
    proof (intro exI conjI)
      show "mc # content = [] @ (mime, c0) # content" by (simp add: mc eq)
      show "media_sample spec c0 = Inr sample" using s0 eq by simp
      show "sample \<noteq> JNull" using False eq by simp
      show "\<forall>mc\<in>set []. media_sample spec (snd mc) = Inr JNull" by simp
    qed
  next
    case True
    with step have "curl_loop spec content = Inr (Some (mime, sample))" by simp
    from Cons.IH[OF this] obtain before c after where
      split: "content = before @ (mime, c) # after"
      and found: "media_sample spec c = Inr sample" "sample \<noteq> JNull"
      and skipped: "\<forall>mc\<in>set before. media_sample spec (snd mc) = Inr JNull"
      by blast
    show ?thesis
    proof (intro exI conjI)
      show "mc # content = (mc # before) @ (mime, c) # after" using split by simp
      show "media_sample spec c = Inr sample" by fact
      show "sample \<noteq> JNull" by fact
      show "\<forall>x\<in>set (mc # before). media_sample spec (snd x) = Inr JNull"
        using skipped s0 True by (simp add: mc)
    qed
  qed
qed


text \<open>
  C10, as the code has it. For a resolved operation, the command is the head, then what
  the loop over the media types appends, then the authorization header. The loop appends
  one Content-Type header and one JSON body, for the first media type in encounter order
  whose sample is not \<^verbatim>\<open>None\<close>: the media types before it all have the sample
  \<^verbatim>\<open>None\<close> and are skipped, and those after it are not looked at. When every sample is
  \<^verbatim>\<open>None\<close> the loop appends nothing.
\<close>

theorem render_curl_one_media_type:
  assumes "find_operation spec rt m = Inr (JObj opd)" and "opd \<noteq> []"
    and "body_content opd = Inr content"
    and "render_curl dumps spec rt m = Inr r"
  shows "\<exists>found.
           curl_loop spec content = Inr found
         \<and> r = JObj [(''curl'', JStr (curl_head rt m @ body_part dumps found @ auth_part spec opd))]
         \<and> (found = None \<longrightarrow> (\<forall>mc\<in>set content. media_sample spec (snd mc) = Inr JNull))
         \<and> (\<forall>mime sample. found = Some (mime, sample) \<longrightarrow>
               (\<exists>before c after. content = before @ (mime, c) # after
                  \<and> media_sample spec c = Inr sample \<and> sample \<noteq> JNull
                  \<and> (\<forall>mc\<in>set before. media_sample spec (snd mc) = Inr JNull)))"
proof -
  from assms have "bind (curl_loop spec content) (\<lambda>found.
            Inr (JObj [(''curl'', JStr (curl_head rt m @ body_part dumps found
                                         @ auth_part spec opd))])) = Inr r"
    by (simp add: render_curl_def bind_def)
  from bind_Inr[OF this] obtain found where
    loop: "curl_loop spec content = Inr found"
    and r: "r = JObj [(''curl'', JStr (curl_head rt m @ body_part dumps found @ auth_part spec opd))]"
    by auto
  show ?thesis
  proof (intro exI conjI)
    show "curl_loop spec content = Inr found" by fact
    show "r = JObj [(''curl'', JStr (curl_head rt m @ body_part dumps found @ auth_part spec opd))]"
      by fact
    show "found = None \<longrightarrow> (\<forall>mc\<in>set content. media_sample spec (snd mc) = Inr JNull)"
      using curl_loop_None[of spec content] loop by auto
    show "\<forall>mime sample. found = Some (mime, sample) \<longrightarrow>
               (\<exists>before c after. content = before @ (mime, c) # after
                  \<and> media_sample spec c = Inr sample \<and> sample \<noteq> JNull
                  \<and> (\<forall>mc\<in>set before. media_sample spec (snd mc) = Inr JNull))"
      using curl_loop_Some[of spec content] loop by auto
  qed
qed

lemma two_media_find:
  "find_operation two_media ''/orders'' ''post'' = Inr (JObj two_media_op)"
  by (simp add: find_operation_def spec_paths_def two_media_def bind_def get_def get_default_def py_or_def
      Let_def lower_def lower_char_def two_media_op_def)

lemma two_media_content:
  "body_content two_media_op
     = Inr [(''text/plain'', JObj [(''schema'', JObj [])]),
            (''application/json'', JObj [(''schema'', JObj [(''type'', JStr ''object'')])])]"
  by (simp add: body_content_def two_media_op_def bind_def get_def get_default_def py_or_def)

lemma two_media_samples:
  "media_sample two_media (JObj [(''schema'', JObj [])]) = Inr JNull"
  "media_sample two_media (JObj [(''schema'', JObj [(''type'', JStr ''object'')])]) = Inr (JObj [])"
  by (simp_all add: media_sample_def schema_of_def bind_def get_def get_default_def py_or_def)

lemma two_media_curl:
  "render_curl dumps_example two_media ''/orders'' ''post''
     = Inr (JObj [(''curl'', JStr (curl_head ''/orders'' ''post''
              @ body_part dumps_example (Some (''application/json'', JObj []))))])"
proof -
  have auth: "auth_part two_media two_media_op = []"
    by (simp add: auth_part_def two_media_op_def two_media_def get_def get_default_def py_or_def)
  have op: "two_media_op \<noteq> []" by (simp add: two_media_op_def)
  show ?thesis
    by (simp add: render_curl_def two_media_find two_media_content two_media_samples bind_def
        auth op)
qed

theorem render_curl_one_media_type_witness:
  "find_operation two_media ''/orders'' ''post'' = Inr (JObj two_media_op)
   \<and> two_media_op \<noteq> []
   \<and> (\<exists>found.
         curl_loop two_media [(''text/plain'', JObj [(''schema'', JObj [])]),
            (''application/json'', JObj [(''schema'', JObj [(''type'', JStr ''object'')])])]
           = Inr found
       \<and> render_curl dumps_example two_media ''/orders'' ''post''
           = Inr (JObj [(''curl'', JStr (curl_head ''/orders'' ''post''
                    @ body_part dumps_example found @ auth_part two_media two_media_op))]))"
proof -
  have ne: "two_media_op \<noteq> []" by (simp add: two_media_op_def)
  from render_curl_one_media_type[OF two_media_find ne two_media_content two_media_curl]
  obtain found where
    "curl_loop two_media [(''text/plain'', JObj [(''schema'', JObj [])]),
            (''application/json'', JObj [(''schema'', JObj [(''type'', JStr ''object'')])])]
           = Inr found"
    "JObj [(''curl'', JStr (curl_head ''/orders'' ''post''
              @ body_part dumps_example (Some (''application/json'', JObj []))))]
       = JObj [(''curl'', JStr (curl_head ''/orders'' ''post''
                    @ body_part dumps_example found @ auth_part two_media two_media_op))]"
    by blast
  with two_media_find ne two_media_curl show ?thesis by auto
qed


text \<open>
  C10 as stated fails: the first media type is \<open>text/plain\<close>, and the command carries
  the header and the body of the second, \<open>application/json\<close>.
\<close>

theorem first_media_type_counterexample:
  "body_content two_media_op
     = Inr [(''text/plain'', JObj [(''schema'', JObj [])]),
            (''application/json'', JObj [(''schema'', JObj [(''type'', JStr ''object'')])])]
   \<and> render_curl dumps_example two_media ''/orders'' ''post''
     = Inr (JObj [(''curl'', JStr (curl_head ''/orders'' ''post''
              @ body_part dumps_example (Some (''application/json'', JObj []))))])
   \<and> body_part dumps_example (Some (''application/json'', JObj []))
     = '' -H '' @ [CHR 0x22] @ ''Content-Type: application/json'' @ [CHR 0x22]
       @ '' -d '' @ [CHR 0x27] @ ''{}'' @ [CHR 0x27]"
  using two_media_content two_media_curl by (simp add: body_part_def dumps_example_def)

end
